theory Spec2Isabelle
  imports Complex_Main "HOL-Library.Sublist"
begin

section \<open>Python values used by app.py\<close>

text \<open>
  A Python \<^verbatim>\<open>str\<close> is a sequence of Unicode code points. Code points are kept as
  natural numbers, so that the messages of the source (which carry symbols beyond ASCII)
  and strings holding surrogate code points are both values of the model.
\<close>

type_synonym pystr = "nat list"

definition lit :: "string \<Rightarrow> pystr" where
  "lit s = map of_char s"

text \<open>\<^verbatim>\<open>sub in s\<close> on strings: \<open>sub\<close> occurs in \<open>s\<close> as a contiguous run.\<close>

fun contains :: "pystr \<Rightarrow> pystr \<Rightarrow> bool" where
  "contains sub [] = (sub = [])"
| "contains sub (c # cs) = (take (length sub) (c # cs) = sub \<or> contains sub cs)"

text \<open>
  Writing to a text file opened with \<^verbatim>\<open>encoding='utf-8'\<close> (error handling left at
  \<^verbatim>\<open>strict\<close>) encodes the string at once; the codec refuses the surrogate code points
  \<open>U+D800 .. U+DFFF\<close> with \<^verbatim>\<open>UnicodeEncodeError\<close>.
\<close>

definition utf8_encodable :: "pystr \<Rightarrow> bool" where
  "utf8_encodable s = list_all (\<lambda>c. \<not> (0xD800 \<le> c \<and> c \<le> 0xDFFF)) s"

text \<open>
  The exceptions of the model are subclasses of \<^verbatim>\<open>Exception\<close>; signals that derive from
  \<^verbatim>\<open>BaseException\<close> only (task cancellation, interpreter exit) are outside it, so
  \<^verbatim>\<open>except Exception\<close> catches every value of this type.
\<close>

datatype exn =
    KeyError | TypeError | AttributeError | UnicodeEncodeError
  | ValueError | JSONDecodeError | RecursionError
  | FileNotFoundError | PermissionError | OSError
  | PlaywrightError | PlaywrightTimeout | CrawlerError

text \<open>What \<^verbatim>\<open>except OSError\<close> catches: the class and its subclasses.\<close>

fun is_OSError :: "exn \<Rightarrow> bool" where
  "is_OSError FileNotFoundError = True"
| "is_OSError PermissionError = True"
| "is_OSError OSError = True"
| "is_OSError _ = False"

text \<open>
  What \<^verbatim>\<open>except json.JSONDecodeError\<close> catches: that class only. It derives from
  \<^verbatim>\<open>ValueError\<close>, so a plain \<^verbatim>\<open>ValueError\<close> is not caught, nor is \<^verbatim>\<open>RecursionError\<close>.
\<close>

fun is_JSONDecodeError :: "exn \<Rightarrow> bool" where
  "is_JSONDecodeError JSONDecodeError = True"
| "is_JSONDecodeError _ = False"

text \<open>
  What \<^verbatim>\<open>json.loads\<close> produces. A \<open>JObj\<close> lists the items of the resulting dict in
  insertion order, each key once. Python's \<^verbatim>\<open>None\<close> is \<open>JNull\<close>. \<^verbatim>\<open>json.loads\<close> also
  accepts the literals \<^verbatim>\<open>NaN\<close>, \<^verbatim>\<open>Infinity\<close> and \<^verbatim>\<open>-Infinity\<close>, which are not JSON, and
  gives the floats \<open>JNaN\<close> and \<open>JInf\<close> (the flag is true for the positive one).
\<close>

datatype json =
    JNull | JBool bool | JInt int | JFloat real | JNaN | JInf bool | JStr pystr
  | JArr "json list" | JObj "(pystr \<times> json) list"

fun truthy :: "json \<Rightarrow> bool" where
  "truthy JNull = False"
| "truthy (JBool b) = b"
| "truthy (JInt n) = (n \<noteq> 0)"
| "truthy (JFloat x) = (x \<noteq> 0)"
| "truthy JNaN = True"
| "truthy (JInf positive) = True"
| "truthy (JStr s) = (s \<noteq> [])"
| "truthy (JArr xs) = (xs \<noteq> [])"
| "truthy (JObj kvs) = (kvs \<noteq> [])"

text \<open>Truthiness of a value that is \<^verbatim>\<open>None\<close> or a \<^verbatim>\<open>str\<close>.\<close>

fun str_truthy :: "pystr option \<Rightarrow> bool" where
  "str_truthy None = False"
| "str_truthy (Some s) = (s \<noteq> [])"

section \<open>The world: files, calls made, what the user interface shows\<close>

datatype ui =
    StTitle pystr | StMarkdown pystr | StTextInput pystr | StButton pystr
  | StStatus pystr | StStatusUpdate pystr pystr
  | StSuccess pystr | StError pystr | StWarning pystr | StException exn
  | StJson json | StHeader pystr | StSubheader nat | StColumns nat | StWrite pystr json

datatype event =
    PlaywrightStart | Launch | NewContext | AddCookies pystr | NewPage
  | Goto pystr | Sleep nat | QuerySelector pystr | InnerHtml pystr | Content
  | BrowserClose | PlaywrightStop
  | NamedTemporaryFile | Write pystr pystr | Unlink pystr
  | CrawlerStart | Arun pystr | CrawlerStop
  | Ui ui

record world =
  fs :: "pystr \<rightharpoonup> pystr"
  trace :: "event list"

definition log :: "event \<Rightarrow> world \<Rightarrow> world" where
  "log ev w = w\<lparr>trace := trace w @ [ev]\<rparr>"

text \<open>The calls a run has added to the trace of the world it started from.\<close>

definition events_since :: "world \<Rightarrow> world \<Rightarrow> event list" where
  "events_since w w' = drop (length (trace w)) (trace w')"

text \<open>
  An awaited call of the automation engine or of the backend: the call is made (and
  recorded), then it either raises or the code after it runs.
\<close>

definition step ::
  "event \<Rightarrow> exn option \<Rightarrow> world \<Rightarrow> (world \<Rightarrow> (exn + 'a) \<times> world) \<Rightarrow> (exn + 'a) \<times> world" where
  "step ev res w k = (case res of Some e \<Rightarrow> (Inl e, log ev w) | None \<Rightarrow> k (log ev w))"

section \<open>The collaborators, as the code sees them\<close>

text \<open>
  An element handle is what \<^verbatim>\<open>inner_html()\<close> on it gives. A page is what the browser
  holds after navigating with a given cookie to a given address.
\<close>

type_synonym element = "exn + pystr"

record page =
  goto_res :: "exn option"
  page_url :: pystr
  query_selector :: "pystr \<Rightarrow> exn + element option"
  page_content :: "exn + pystr"

record crawl_result =
  success :: bool
  extracted_content :: "pystr option"

text \<open>
  Everything outside the repository: the outcome of each call of the automation engine,
  of the file system, of the secrets store, of the extraction backend and of
  \<^verbatim>\<open>json.loads\<close>, and the user's inputs. A lookup in the secrets store gives the value or
  raises (\<^verbatim>\<open>KeyError\<close> for a missing key, a \<^verbatim>\<open>FileNotFoundError\<close> when there is no secrets
  file). \<^verbatim>\<open>json.loads\<close> gives a value or raises (\<^verbatim>\<open>JSONDecodeError\<close>, and also
  \<^verbatim>\<open>RecursionError\<close> on deep nesting or a plain \<^verbatim>\<open>ValueError\<close> on an over-long number).
  \<open>unlink_denied\<close> says that \<^verbatim>\<open>os.unlink\<close> of a file that is there fails with
  \<^verbatim>\<open>PermissionError\<close>. Closing the browser, leaving a context manager and the display
  calls complete normally.
\<close>

record 'r env =
  playwright_start :: "exn option"
  launch :: "exn option"
  new_context :: "exn option"
  add_cookies :: "exn option"
  new_page :: "exn option"
  navigate :: "pystr \<Rightarrow> pystr \<Rightarrow> page"
  sleep :: "exn option"
  named_temporary_file :: "exn + pystr"
  unlink_denied :: bool
  secrets :: "pystr \<Rightarrow> exn + pystr"
  crawler_start :: "exn option"
  arun :: "pystr \<Rightarrow> pystr \<Rightarrow> exn + 'r crawl_result_scheme list"
  loads :: "pystr \<Rightarrow> exn + json"
  text_input_cookie :: pystr
  text_input_url :: pystr
  button :: bool

section \<open>get_authenticated_html\<close>

definition msg_loading :: pystr where
  "msg_loading = 0x1F310 # lit '' Loading LinkedIn with Playwright...''"

definition msg_redirect :: pystr where
  "msg_redirect = 0x274C # lit '' LinkedIn redirected to login - cookie is expired or invalid!''"

definition msg_found :: "pystr \<Rightarrow> pystr" where
  "msg_found selector = 0x2705 # lit '' Found feed container with selector: '' @ selector"

definition msg_no_container :: pystr where
  "msg_no_container = [0x26A0, 0xFE0F] @ lit '' No specific container found, using full page HTML.''"

definition selectors_to_try :: "pystr list" where
  "selectors_to_try =
     [lit ''ul.display-flex.flex-wrap.list-style-none.justify-center'',
      lit ''.scaffold-finite-scroll__content'',
      lit ''.application-outlet main'']"

text \<open>
  The loop over the selectors, from \<^verbatim>\<open>feed_html = None\<close>. An exception of
  \<^verbatim>\<open>query_selector\<close> or of \<^verbatim>\<open>inner_html\<close> goes to the next selector; so does an absent
  element. The first markup read ends the loop.
\<close>

fun probe :: "page \<Rightarrow> pystr list \<Rightarrow> world \<Rightarrow> pystr option \<times> world" where
  "probe pg [] w = (None, w)"
| "probe pg (selector # rest) w =
     (let w1 = log (QuerySelector selector) w in
      case query_selector pg selector of
        Inl e \<Rightarrow> probe pg rest w1
      | Inr None \<Rightarrow> probe pg rest w1
      | Inr (Some feed_element) \<Rightarrow>
          (let w2 = log (InnerHtml selector) w1 in
           case feed_element of
             Inl e \<Rightarrow> probe pg rest w2
           | Inr feed_html \<Rightarrow> (Some feed_html, log (Ui (StSuccess (msg_found selector))) w2)))"

text \<open>The body of \<^verbatim>\<open>async with async_playwright() as p\<close>.\<close>

definition session :: "'r env \<Rightarrow> pystr \<Rightarrow> pystr \<Rightarrow> world \<Rightarrow> (exn + pystr option) \<times> world" where
  "session env li_at_cookie url w0 =
     step Launch (launch env) w0 (\<lambda>w.
     step NewContext (new_context env) w (\<lambda>w.
     step (AddCookies li_at_cookie) (add_cookies env) w (\<lambda>w.
     step NewPage (new_page env) w (\<lambda>w.
     let pg = navigate env li_at_cookie url in
     step (Goto url) (goto_res pg) (log (Ui (StStatus msg_loading)) w) (\<lambda>w.
     step (Sleep 5) (sleep env) w (\<lambda>w.
     let current_url = page_url pg in
     if contains (lit ''login'') current_url \<or> contains (lit ''checkpoint'') current_url
     then (Inr None, log BrowserClose (log (Ui (StError msg_redirect)) w))
     else
       (case probe pg selectors_to_try w of (feed_html, w) \<Rightarrow>
          if \<not> str_truthy feed_html
          then
            (let w = log Content (log (Ui (StWarning msg_no_container)) w) in
             case page_content pg of
               Inl e \<Rightarrow> (Inl e, w)
             | Inr full \<Rightarrow> (Inr (Some full), log BrowserClose w))
          else (Inr feed_html, log BrowserClose w))))))))"

text \<open>
  The context manager: when it cannot be entered the body does not run and nothing is
  left to stop; once entered, leaving it stops the engine, however the body ended.
\<close>

definition get_authenticated_html ::
  "'r env \<Rightarrow> pystr \<Rightarrow> pystr \<Rightarrow> world \<Rightarrow> (exn + pystr option) \<times> world" where
  "get_authenticated_html env li_at_cookie url w =
     step PlaywrightStart (playwright_start env) w (\<lambda>w.
       case session env li_at_cookie url w of (r, w) \<Rightarrow> (r, log PlaywrightStop w))"

section \<open>extract_with_crawl4ai\<close>

definition msg_running :: pystr where
  "msg_running = 0x1F916 # lit '' Running Crawl4AI extraction...''"

definition msg_extracted :: pystr where
  "msg_extracted = 0x2705 # lit '' Crawl4AI extraction successful!''"

definition msg_parse_failed :: pystr where
  "msg_parse_failed = 0x274C # lit '' Failed to parse Crawl4AI JSON output.''"

definition msg_extraction_failed :: pystr where
  "msg_extraction_failed = 0x274C # lit '' Crawl4AI extraction failed.''"

text \<open>
  The loop over the results. Each branch of its body returns, so only the first result is
  looked at; with no result the loop ends and the function falls off its end, which
  returns \<^verbatim>\<open>None\<close>. \<^verbatim>\<open>json.loads\<close> of a content that is \<^verbatim>\<open>None\<close> raises \<^verbatim>\<open>TypeError\<close>, which
  \<^verbatim>\<open>except json.JSONDecodeError\<close> does not catch; nor does it catch any other exception
  of \<^verbatim>\<open>json.loads\<close> that is not a \<^verbatim>\<open>JSONDecodeError\<close>.
\<close>

fun first_result ::
  "'r env \<Rightarrow> 'r crawl_result_scheme list \<Rightarrow> world \<Rightarrow> (exn + json) \<times> world" where
  "first_result env [] w = (Inr JNull, w)"
| "first_result env (result # rest) w =
     (if success result then
        (case extracted_content result of
           None \<Rightarrow> (Inl TypeError, w)
         | Some content \<Rightarrow>
             (case loads env content of
                Inr data \<Rightarrow> (Inr data, log (Ui (StSuccess msg_extracted)) w)
              | Inl e \<Rightarrow>
                  if is_JSONDecodeError e then
                    (Inr (JArr []),
                     log (Ui (StJson (JObj [(lit ''raw_content'', JStr content)])))
                       (log (Ui (StError msg_parse_failed)) w))
                  else (Inl e, w)))
      else (Inr (JArr []), log (Ui (StError msg_extraction_failed)) w))"

text \<open>
  The body of the \<^verbatim>\<open>try\<close>. The name of a temporary file is absolute, so
  \<^verbatim>\<open>os.path.abspath\<close> leaves it as it is. The instruction, the schema and the sampling
  arguments are constants handed to the backend; the backend's answer is a function of
  the address and of the token.
\<close>

definition crawl :: "'r env \<Rightarrow> pystr \<Rightarrow> world \<Rightarrow> (exn + json) \<times> world" where
  "crawl env temp_html_path w0 =
     (let file_url = lit ''file://'' @ temp_html_path in
      case secrets env (lit ''GROQ_API_KEY'') of
        Inl e \<Rightarrow> (Inl e, w0)
      | Inr llm_api_key \<Rightarrow>
          step CrawlerStart (crawler_start env) (log (Ui (StStatus msg_running)) w0) (\<lambda>w.
            let w = log (Arun file_url) w in
            case arun env file_url llm_api_key of
              Inl e \<Rightarrow> (Inl e, log CrawlerStop w)
            | Inr results \<Rightarrow>
                (case first_result env results w of (r, w) \<Rightarrow> (r, log CrawlerStop w))))"

text \<open>
  \<^verbatim>\<open>os.unlink\<close>: a file that is not there gives \<^verbatim>\<open>FileNotFoundError\<close>; a file that is
  there is removed, unless the system refuses, which leaves it in place.
\<close>

definition os_unlink :: "'r env \<Rightarrow> pystr \<Rightarrow> world \<Rightarrow> (exn + unit) \<times> world" where
  "os_unlink env path w =
     (let w1 = log (Unlink path) w in
      if fs w1 path = None then (Inl FileNotFoundError, w1)
      else if unlink_denied env then (Inl PermissionError, w1)
      else (Inr (), w1\<lparr>fs := (fs w1)(path := None)\<rparr>))"

text \<open>The \<^verbatim>\<open>finally\<close> block: \<^verbatim>\<open>os.unlink\<close> under \<^verbatim>\<open>except OSError: pass\<close>.\<close>

definition cleanup :: "'r env \<Rightarrow> pystr \<Rightarrow> world \<Rightarrow> (exn + unit) \<times> world" where
  "cleanup env path w =
     (case os_unlink env path w of
        (Inl e, w') \<Rightarrow> if is_OSError e then (Inr (), w') else (Inl e, w')
      | (Inr u, w') \<Rightarrow> (Inr u, w'))"

text \<open>
  \<open>document\<close> is the string written to the file.
  The file is created (empty) and written inside the \<^verbatim>\<open>with\<close> block, before the \<^verbatim>\<open>try\<close>;
  it is opened with \<^verbatim>\<open>delete=False\<close>, so leaving the block closes it and keeps it. An
  exception of \<^verbatim>\<open>cleanup\<close> would replace the outcome of the \<^verbatim>\<open>try\<close> body.
\<close>

definition document :: "pystr \<Rightarrow> pystr" where
  "document html_content = lit ''<html><body>'' @ html_content @ lit ''</body></html>''"

definition extract_with_crawl4ai :: "'r env \<Rightarrow> pystr \<Rightarrow> world \<Rightarrow> (exn + json) \<times> world" where
  "extract_with_crawl4ai env html_content w0 =
     (let w = log NamedTemporaryFile w0 in
      case named_temporary_file env of
        Inl e \<Rightarrow> (Inl e, w)
      | Inr temp_html_path \<Rightarrow>
          (let w = w\<lparr>fs := (fs w)(temp_html_path \<mapsto> [])\<rparr>;
               doc = document html_content;
               w = log (Write temp_html_path doc) w in
           if \<not> utf8_encodable doc then (Inl UnicodeEncodeError, w)
           else
             (case crawl env temp_html_path (w\<lparr>fs := (fs w)(temp_html_path \<mapsto> doc)\<rparr>) of
                (r, w) \<Rightarrow>
                  (case cleanup env temp_html_path w of
                     (Inl e, w) \<Rightarrow> (Inl e, w)
                   | (Inr u, w) \<Rightarrow> (r, w)))))"

section \<open>main_app\<close>

definition msg_no_data :: pystr where
  "msg_no_data = 0x274C # lit '' No data was extracted. Check the logs above for details.''"

text \<open>What \<^verbatim>\<open>enumerate\<close> iterates over; a number or a boolean is not iterable.\<close>

fun py_iter :: "json \<Rightarrow> exn + json list" where
  "py_iter (JArr xs) = Inr xs"
| "py_iter (JObj kvs) = Inr (map (\<lambda>kv. JStr (fst kv)) kvs)"
| "py_iter (JStr s) = Inr (map (\<lambda>c. JStr [c]) s)"
| "py_iter _ = Inl TypeError"

text \<open>\<^verbatim>\<open>post.get(key, default)\<close>: only a dict has the method.\<close>

fun dict_get :: "json \<Rightarrow> pystr \<Rightarrow> json \<Rightarrow> exn + json" where
  "dict_get (JObj kvs) key dflt = Inr (case map_of kvs key of Some v \<Rightarrow> v | None \<Rightarrow> dflt)"
| "dict_get _ key dflt = Inl AttributeError"

definition column_fields :: "(pystr \<times> pystr) list" where
  "column_fields =
     [(lit ''**Company:** '', lit ''company_name''),
      (lit ''**Job Title:** '', lit ''job_title''),
      (lit ''**Location:** '', lit ''location''),
      (lit ''**Timestamp:** '', lit ''timestamp''),
      (lit ''**Eligibility:** '', lit ''eligibility''),
      (lit ''**Stipend:** '', lit ''stipend''),
      (lit ''**Apply Link:** '', lit ''apply_link'')]"

text \<open>The \<^verbatim>\<open>st.write\<close> calls of one post, in the order of the source.\<close>

fun write_fields :: "(pystr \<times> pystr) list \<Rightarrow> json \<Rightarrow> world \<Rightarrow> (exn + unit) \<times> world" where
  "write_fields [] post w = (Inr (), w)"
| "write_fields ((label, key) # others) post w =
     (case dict_get post key (JStr (lit ''N/A'')) of
        Inl e \<Rightarrow> (Inl e, w)
      | Inr v \<Rightarrow> write_fields others post (log (Ui (StWrite label v)) w))"

fun show_posts :: "nat \<Rightarrow> json list \<Rightarrow> world \<Rightarrow> (exn + unit) \<times> world" where
  "show_posts i [] w = (Inr (), w)"
| "show_posts i (post # posts) w =
     (case write_fields column_fields post
             (log (Ui (StColumns 2)) (log (Ui (StSubheader (i + 1))) w)) of
        (Inl e, w) \<Rightarrow> (Inl e, w)
      | (Inr u, w) \<Rightarrow> show_posts (i + 1) posts w)"

definition show_results :: "json \<Rightarrow> world \<Rightarrow> (exn + unit) \<times> world" where
  "show_results extracted_data w0 =
     (let w = log (Ui (StHeader (0x1F4CA # lit '' Final Results''))) w0;
          w = log (Ui (StJson extracted_data)) w;
          w = log (Ui (StHeader (0x1F4CB # lit '' Formatted Output''))) w in
      case py_iter extracted_data of
        Inl e \<Rightarrow> (Inl e, w)
      | Inr posts \<Rightarrow> show_posts 0 posts w)"

text \<open>The body of the \<^verbatim>\<open>try\<close> of \<^verbatim>\<open>main_app\<close>.\<close>

definition pipeline :: "'r env \<Rightarrow> pystr \<Rightarrow> pystr \<Rightarrow> world \<Rightarrow> (exn + unit) \<times> world" where
  "pipeline env li_at_cookie activity_url w0 =
     (case get_authenticated_html env li_at_cookie activity_url w0 of
        (Inl e, w) \<Rightarrow> (Inl e, w)
      | (Inr html_content, w) \<Rightarrow>
          (if str_truthy html_content then
             (case html_content of
                None \<Rightarrow> (Inr (), w)
              | Some html \<Rightarrow>
                  (case extract_with_crawl4ai env html w of
                     (Inl e, w) \<Rightarrow> (Inl e, w)
                   | (Inr extracted_data, w) \<Rightarrow>
                       (let w = log (Ui (StStatusUpdate (lit ''Extraction Complete!'') (lit ''complete''))) w in
                        if truthy extracted_data then show_results extracted_data w
                        else (Inr (), log (Ui (StError msg_no_data)) w))))
           else (Inr (), w)))"

definition main_app :: "'r env \<Rightarrow> world \<Rightarrow> world" where
  "main_app env w0 =
     (let w = log (Ui (StTitle (lit ''LinkedIn Post Extractor''))) w0;
          w = log (Ui (StMarkdown (lit ''Enter your LinkedIn 'li_at' cookie and a profile URL to extract recent posts.''))) w;
          w = log (Ui (StTextInput (lit ''Enter your 'li_at' cookie:''))) w;
          li_at_cookie = text_input_cookie env;
          w = log (Ui (StTextInput (lit ''Enter LinkedIn activity URL:''))) w;
          activity_url = text_input_url env;
          w = log (Ui (StButton (lit ''Start Extraction''))) w in
      if \<not> button env then w
      else if li_at_cookie = [] then log (Ui (StError (lit ''Please enter your 'li_at' cookie.''))) w
      else
        (case pipeline env li_at_cookie activity_url (log (Ui (StStatus (lit ''Initializing...''))) w) of
           (Inl e, w) \<Rightarrow>
             log (Ui (StStatusUpdate (lit ''An error occurred'') (lit ''error'')))
               (log (Ui (StException e)) w)
         | (Inr u, w) \<Rightarrow> w))"

section \<open>Scenarios and observations\<close>

text \<open>
  The browser reaches the page: the engine starts, the browser, its context and its page
  are created, the cookie is installed, and navigation and the settle delay complete.
\<close>

definition reaches_page :: "'r env \<Rightarrow> pystr \<Rightarrow> pystr \<Rightarrow> bool" where
  "reaches_page env li_at_cookie url \<longleftrightarrow>
     playwright_start env = None \<and> launch env = None \<and> new_context env = None \<and>
     add_cookies env = None \<and> new_page env = None \<and>
     goto_res (navigate env li_at_cookie url) = None \<and> sleep env = None"

text \<open>The test the source makes on the address the page has after navigation.\<close>

definition redirected_to_login :: "page \<Rightarrow> bool" where
  "redirected_to_login pg \<longleftrightarrow>
     contains (lit ''login'') (page_url pg) \<or> contains (lit ''checkpoint'') (page_url pg)"

text \<open>Calls that probe a selector or capture markup.\<close>

fun probes_or_captures :: "event \<Rightarrow> bool" where
  "probes_or_captures (QuerySelector s) = True"
| "probes_or_captures (InnerHtml s) = True"
| "probes_or_captures Content = True"
| "probes_or_captures _ = False"

text \<open>Calls and messages made between entering and leaving the engine's scope.\<close>

fun in_session :: "event \<Rightarrow> bool" where
  "in_session Launch = True"
| "in_session NewContext = True"
| "in_session (AddCookies v) = True"
| "in_session NewPage = True"
| "in_session (Goto u) = True"
| "in_session (Sleep n) = True"
| "in_session (QuerySelector s) = True"
| "in_session (InnerHtml s) = True"
| "in_session Content = True"
| "in_session BrowserClose = True"
| "in_session (Ui m) = True"
| "in_session _ = False"

text \<open>
  A run inside the engine's scope that started in world \<open>w\<close>: it leaves the files alone,
  adds at least one call, adds only calls of the session, and closes the browser as its
  last call exactly when it returns a value.
\<close>

definition session_run :: "world \<Rightarrow> (exn + 'a) \<times> world \<Rightarrow> bool" where
  "session_run w out \<longleftrightarrow>
     fs (snd out) = fs w \<and>
     (\<exists>evs. trace (snd out) = trace w @ evs \<and> list_all in_session evs \<and> evs \<noteq> []
        \<and> ((\<exists>v. fst out = Inr v) \<longleftrightarrow> last evs = BrowserClose))"

text \<open>A page on which one selector has a given outcome.\<close>

definition with_selector :: "page \<Rightarrow> pystr \<Rightarrow> exn + element option \<Rightarrow> page" where
  "with_selector pg sel outcome = pg\<lparr>query_selector := (query_selector pg)(sel := outcome)\<rparr>"

text \<open>The address handed to the backend for a temporary file.\<close>

definition file_url_of :: "pystr \<Rightarrow> pystr" where
  "file_url_of path = lit ''file://'' @ path"

text \<open>
  The backend answers with the given results: the temporary file is created and written,
  the secret is there, the crawler starts and its run returns the results.
\<close>

definition backend_answers ::
  "'r env \<Rightarrow> pystr \<Rightarrow> pystr \<Rightarrow> 'r crawl_result_scheme list \<Rightarrow> bool" where
  "backend_answers env html_content path results \<longleftrightarrow>
     named_temporary_file env = Inr path \<and> utf8_encodable html_content \<and>
     crawler_start env = None \<and>
     (case secrets env (lit ''GROQ_API_KEY'') of
        Inl e \<Rightarrow> False
      | Inr token \<Rightarrow> arun env (file_url_of path) token = Inr results)"

section \<open>Sample collaborators\<close>

definition world0 :: world where
  "world0 = \<lparr>fs = Map.empty, trace = []\<rparr>"

definition sample_page :: "pystr \<Rightarrow> page" where
  "sample_page u =
     \<lparr>goto_res = None, page_url = u, query_selector = (\<lambda>sel. Inr None),
      page_content = Inr (lit ''<html><body><main>feed</main></body></html>'')\<rparr>"

text \<open>
  \<^verbatim>\<open>json.loads\<close> on the strings used below: the empty array, the literal \<^verbatim>\<open>NaN\<close> (accepted
  though it is not JSON), a thousand opening brackets (the parser exceeds the recursion
  limit), and anything else taken as malformed.
\<close>

definition sample_loads :: "pystr \<Rightarrow> exn + json" where
  "sample_loads s =
     (if s = lit ''[]'' then Inr (JArr [])
      else if s = lit ''NaN'' then Inr JNaN
      else if s = replicate 1000 0x5B then Inl RecursionError
      else Inl JSONDecodeError)"

definition sample_env :: "unit env" where
  "sample_env =
     \<lparr>playwright_start = None, launch = None, new_context = None, add_cookies = None,
      new_page = None, navigate = (\<lambda>c u. sample_page u), sleep = None,
      named_temporary_file = Inr (lit ''/tmp/tmpk3x9a1.html''),
      unlink_denied = False,
      secrets = (\<lambda>key. if key = lit ''GROQ_API_KEY'' then Inr (lit ''gsk_test'') else Inl KeyError),
      crawler_start = None,
      arun = (\<lambda>address token. Inr []),
      loads = sample_loads,
      text_input_cookie = lit ''AQEDAR'',
      text_input_url = lit ''https://www.linkedin.com/in/someone/recent-activity/all/'',
      button = True\<rparr>"

definition redirect_env :: "unit env" where
  "redirect_env =
     sample_env\<lparr>navigate := (\<lambda>c u. sample_page (lit ''https://www.linkedin.com/login''))\<rparr>"

definition timeout_env :: "unit env" where
  "timeout_env = sample_env\<lparr>navigate := (\<lambda>c u. (sample_page u)\<lparr>goto_res := Some PlaywrightTimeout\<rparr>)\<rparr>"

definition feed_env :: "unit env" where
  "feed_env =
     sample_env\<lparr>navigate := (\<lambda>c u. (sample_page u)
       \<lparr>query_selector := (\<lambda>sel. if sel = hd selectors_to_try
            then Inr (Some (Inr (lit ''<li>post</li>''))) else Inr None)\<rparr>)\<rparr>"





definition failed_env :: "unit env" where
  "failed_env = sample_env\<lparr>arun := (\<lambda>address token.
     Inr [\<lparr>success = False, extracted_content = None\<rparr>])\<rparr>"

definition garbled_env :: "unit env" where
  "garbled_env = sample_env\<lparr>arun := (\<lambda>address token.
     Inr [\<lparr>success = True, extracted_content = Some (lit ''not json'')\<rparr>])\<rparr>"

definition nan_env :: "unit env" where
  "nan_env = sample_env\<lparr>arun := (\<lambda>address token.
     Inr [\<lparr>success = True, extracted_content = Some (lit ''NaN'')\<rparr>])\<rparr>"

definition deep_env :: "unit env" where
  "deep_env = sample_env\<lparr>arun := (\<lambda>address token.
     Inr [\<lparr>success = True, extracted_content = Some (replicate 1000 0x5B)\<rparr>])\<rparr>"

definition two_results_env :: "unit env" where
  "two_results_env = sample_env\<lparr>arun := (\<lambda>address token.
     Inr [\<lparr>success = True, extracted_content = Some (lit ''[]'')\<rparr>,
          \<lparr>success = False, extracted_content = None\<rparr>])\<rparr>"

definition extract_env :: "unit env" where
  "extract_env = feed_env\<lparr>arun := (\<lambda>address token.
     Inr [\<lparr>success = True, extracted_content = Some (lit ''[]'')\<rparr>])\<rparr>"

section \<open>Traces\<close>

lemma trace_log [simp]: "trace (log ev w) = trace w @ [ev]"
  by (simp add: log_def)

lemma fs_log [simp]: "fs (log ev w) = fs w"
  by (simp add: log_def)

lemma events_since_append [simp]: "trace w' = trace w @ evs \<Longrightarrow> events_since w w' = evs"
  by (simp add: events_since_def)

text \<open>\<open>contains\<close> is the contiguous-sublist relation of the library.\<close>

lemma contains_sublist: "contains sub s \<longleftrightarrow> sublist sub s"
proof (induction s)
  case Nil
  show ?case by simp
next
  case (Cons c cs)
  have "sublist sub (c # cs) \<longleftrightarrow> prefix sub (c # cs) \<or> sublist sub cs"
    by (simp add: sublist_Cons_right)
  moreover have "prefix sub (c # cs) \<longleftrightarrow> take (length sub) (c # cs) = sub"
    by (metis append_eq_conv_conj prefix_def take_is_prefix)
  ultimately show ?case using Cons.IH by simp
qed

section \<open>Properties of get_authenticated_html\<close>

lemma fetch_redirect:
  assumes "reaches_page env c u" "redirected_to_login (navigate env c u)"
  shows "get_authenticated_html env c u w =
     (Inr None, w\<lparr>trace := trace w @ [PlaywrightStart, Launch, NewContext, AddCookies c, NewPage,
        Ui (StStatus msg_loading), Goto u, Sleep 5, Ui (StError msg_redirect),
        BrowserClose, PlaywrightStop]\<rparr>)"
  using assms
  by (simp add: get_authenticated_html_def session_def step_def reaches_page_def
      redirected_to_login_def log_def)

lemma probe_none:
  "\<forall>sel\<in>set sels. \<forall>el. query_selector pg sel \<noteq> Inr (Some el) \<Longrightarrow>
   probe pg sels w = (None, w\<lparr>trace := trace w @ map QuerySelector sels\<rparr>)"
proof (induction sels arbitrary: w)
  case Nil
  show ?case by simp
next
  case (Cons s sels)
  then show ?case
    by (cases "query_selector pg s") (auto simp: Let_def log_def split: option.splits)
qed

lemma probe_frame:
  "fs (snd (probe pg sels w)) = fs w \<and>
   (\<exists>evs. trace (snd (probe pg sels w)) = trace w @ evs \<and> list_all in_session evs
      \<and> BrowserClose \<notin> set evs)"
proof (induction sels arbitrary: w)
  case Nil
  show ?case by simp
next
  case (Cons s sels)
  have next_one: "fs (snd (probe pg sels w1)) = fs w \<and>
      (\<exists>evs. trace (snd (probe pg sels w1)) = trace w @ evs \<and> list_all in_session evs
         \<and> BrowserClose \<notin> set evs)"
    if "fs w1 = fs w" "trace w1 = trace w @ pre" "list_all in_session pre" "BrowserClose \<notin> set pre"
    for w1 pre
  proof -
    from Cons.IH [of w1] obtain evs where
      "fs (snd (probe pg sels w1)) = fs w1" "trace (snd (probe pg sels w1)) = trace w1 @ evs"
      "list_all in_session evs" "BrowserClose \<notin> set evs"
      by auto
    with that show ?thesis by simp
  qed
  show ?case
  proof (cases "query_selector pg s")
    case (Inl e)
    then show ?thesis
      using next_one [of "log (QuerySelector s) w" "[QuerySelector s]"] by simp
  next
    case (Inr found)
    show ?thesis
    proof (cases found)
      case None
      with Inr show ?thesis
        using next_one [of "log (QuerySelector s) w" "[QuerySelector s]"] by simp
    next
      case (Some el)
      show ?thesis
      proof (cases el)
        case (Inl e)
        with Inr Some show ?thesis
          using next_one [of "log (InnerHtml s) (log (QuerySelector s) w)" "[QuerySelector s, InnerHtml s]"]
          by simp
      next
        case (Inr h)
        with \<open>query_selector pg s = Inr found\<close> Some show ?thesis
          by simp
      qed
    qed
  qed
qed

lemma session_run_step:
  assumes ev: "in_session ev" "ev \<noteq> BrowserClose"
    and k: "\<And>w'. session_run w' (k w')"
  shows "session_run w (step ev res w k)"
proof (cases res)
  case (Some e)
  with ev show ?thesis
    by (simp add: session_run_def step_def)
next
  case None
  from k [of "log ev w"] obtain evs where
    "fs (snd (k (log ev w))) = fs w"
    "trace (snd (k (log ev w))) = trace w @ ev # evs" "list_all in_session evs" "evs \<noteq> []"
    "(\<exists>v. fst (k (log ev w)) = Inr v) \<longleftrightarrow> last evs = BrowserClose"
    by (auto simp: session_run_def)
  with None ev show ?thesis
    by (simp add: session_run_def step_def)
qed

lemma session_run_log:
  assumes "in_session ev" "session_run (log ev w) out"
  shows "session_run w out"
proof -
  from assms(2) obtain evs where
    "fs (snd out) = fs w"
    "trace (snd out) = trace w @ ev # evs" "list_all in_session evs" "evs \<noteq> []"
    "(\<exists>v. fst out = Inr v) \<longleftrightarrow> last evs = BrowserClose"
    by (auto simp: session_run_def)
  with assms(1) show ?thesis
    by (simp add: session_run_def)
qed

lemma session_run_tail:
  "session_run w
     (if contains (lit ''login'') (page_url pg) \<or> contains (lit ''checkpoint'') (page_url pg)
      then (Inr None, log BrowserClose (log (Ui (StError msg_redirect)) w))
      else
        (case probe pg selectors_to_try w of (feed_html, w) \<Rightarrow>
           if \<not> str_truthy feed_html
           then
             (let w = log Content (log (Ui (StWarning msg_no_container)) w) in
              case page_content pg of
                Inl e \<Rightarrow> (Inl e, w)
              | Inr full \<Rightarrow> (Inr (Some full), log BrowserClose w))
           else (Inr feed_html, log BrowserClose w)))"
proof -
  obtain r w' where p: "probe pg selectors_to_try w = (r, w')"
    by (cases "probe pg selectors_to_try w")
  with probe_frame [of pg selectors_to_try w] obtain evs where
    w': "fs w' = fs w" "trace w' = trace w @ evs" and evs: "list_all in_session evs"
    by auto
  show ?thesis
  proof (cases "contains (lit ''login'') (page_url pg) \<or> contains (lit ''checkpoint'') (page_url pg)")
    case True
    then show ?thesis
      by (simp add: session_run_def)
  next
    case False
    show ?thesis
    proof (cases "str_truthy r")
      case True
      with False p w' evs show ?thesis
        by (simp add: session_run_def)
    next
      case nt: False
      show ?thesis
      proof (cases "page_content pg")
        case (Inl e)
        with False nt p w' evs show ?thesis
          by (simp add: session_run_def)
      next
        case (Inr full)
        with False nt p w' evs show ?thesis
          by (simp add: session_run_def)
      qed
    qed
  qed
qed

lemma session_frame: "session_run w (session env c u w)"
  unfolding session_def Let_def
  apply (rule session_run_step, simp, simp)
  apply (rule session_run_step, simp, simp)
  apply (rule session_run_step, simp, simp)
  apply (rule session_run_step, simp, simp)
  apply (rule session_run_log [where ev = "Ui (StStatus msg_loading)"], simp)
  apply (rule session_run_step, simp, simp)
  apply (rule session_run_step, simp, simp)
  apply (rule session_run_tail [unfolded Let_def])
  done

lemma fetch_frame:
  "fs (snd (get_authenticated_html env c u w)) = fs w \<and>
   (\<exists>evs. trace (snd (get_authenticated_html env c u w)) = trace w @ PlaywrightStart # evs
      \<and> list_all (\<lambda>ev. in_session ev \<or> ev = PlaywrightStop) evs)"
proof (cases "playwright_start env")
  case (Some e)
  then show ?thesis
    by (simp add: get_authenticated_html_def step_def)
next
  case None
  from session_frame [of "log PlaywrightStart w" env c u] obtain evs where
    "fs (snd (session env c u (log PlaywrightStart w))) = fs w"
    "trace (snd (session env c u (log PlaywrightStart w))) = trace w @ PlaywrightStart # evs"
    "list_all in_session evs"
    by (auto simp: session_run_def)
  with None show ?thesis
    by (simp add: get_authenticated_html_def step_def split_beta list_all_iff)
qed

lemma main_app_redirect:
  assumes "reaches_page env (text_input_cookie env) (text_input_url env)"
    and "redirected_to_login (navigate env (text_input_cookie env) (text_input_url env))"
  shows "NamedTemporaryFile \<notin> set (events_since w (main_app env w))"
proof (cases "button env \<and> text_input_cookie env \<noteq> []")
  case True
  then show ?thesis
    by (simp add: main_app_def pipeline_def Let_def fetch_redirect [OF assms] events_since_def)
next
  case False
  then show ?thesis
    by (auto simp: main_app_def Let_def events_since_def)
qed

lemma query_with_selector [simp]:
  "query_selector (with_selector pg sel outcome) s = (if s = sel then outcome else query_selector pg s)"
  by (simp add: with_selector_def)


lemma probe_result_independent:
  "fst (probe pg sels w) = fst (probe pg sels w')"
proof (induction sels arbitrary: w w')
  case Nil
  show ?case by simp
next
  case (Cons s sels)
  show ?case
    by (cases "query_selector pg s")
      (auto simp: Let_def Cons.IH [of "log (QuerySelector s) w" "log (QuerySelector s) w'"]
         Cons.IH [of "log (InnerHtml s) (log (QuerySelector s) w)" "log (InnerHtml s) (log (QuerySelector s) w')"]
         split: option.splits sum.splits)
qed


text \<open>
  C2: when the browser reaches a page whose address contains \<^verbatim>\<open>login\<close> or
  \<^verbatim>\<open>checkpoint\<close>, whatever the cookie, \<open>get_authenticated_html\<close> reports the invalid
  cookie, closes the browser and returns \<^verbatim>\<open>None\<close>; it makes no \<^verbatim>\<open>query_selector\<close>,
  \<^verbatim>\<open>inner_html\<close> or \<^verbatim>\<open>content\<close> call; and a run of \<open>main_app\<close> with these inputs never
  enters \<open>extract_with_crawl4ai\<close> (whose first call creates the temporary file).
\<close>

theorem login_redirect_is_auth_failure:
  assumes "reaches_page env c u" and "redirected_to_login (navigate env c u)"
  shows "fst (get_authenticated_html env c u w) = Inr None
     \<and> events_since w (snd (get_authenticated_html env c u w)) =
         [PlaywrightStart, Launch, NewContext, AddCookies c, NewPage, Ui (StStatus msg_loading),
          Goto u, Sleep 5, Ui (StError msg_redirect), BrowserClose, PlaywrightStop]
     \<and> \<not> list_ex probes_or_captures (events_since w (snd (get_authenticated_html env c u w)))
     \<and> (text_input_cookie env = c \<and> text_input_url env = u
          \<longrightarrow> NamedTemporaryFile \<notin> set (events_since w (main_app env w)))"
proof -
  have run: "get_authenticated_html env c u w =
     (Inr None, w\<lparr>trace := trace w @ [PlaywrightStart, Launch, NewContext, AddCookies c, NewPage,
        Ui (StStatus msg_loading), Goto u, Sleep 5, Ui (StError msg_redirect),
        BrowserClose, PlaywrightStop]\<rparr>)"
    using assms by (rule fetch_redirect)
  have "NamedTemporaryFile \<notin> set (events_since w (main_app env w))"
    if "text_input_cookie env = c" "text_input_url env = u"
    using assms that main_app_redirect [of env w] by simp
  with run show ?thesis by simp
qed

theorem login_redirect_is_auth_failure_witness:
  "reaches_page redirect_env (lit ''AQEDAR'') (lit ''https://www.linkedin.com/in/someone/recent-activity/all/'')
   \<and> redirected_to_login (navigate redirect_env (lit ''AQEDAR'') (lit ''https://www.linkedin.com/in/someone/recent-activity/all/''))
   \<and> fst (get_authenticated_html redirect_env (lit ''AQEDAR'') (lit ''https://www.linkedin.com/in/someone/recent-activity/all/'') world0) = Inr None
   \<and> NamedTemporaryFile \<notin> set (events_since world0 (main_app redirect_env world0))"
proof -
  have r: "reaches_page redirect_env (lit ''AQEDAR'') (lit ''https://www.linkedin.com/in/someone/recent-activity/all/'')"
    by (simp add: reaches_page_def redirect_env_def sample_env_def sample_page_def)
  have l: "redirected_to_login (navigate redirect_env (lit ''AQEDAR'') (lit ''https://www.linkedin.com/in/someone/recent-activity/all/''))"
    by (simp add: redirected_to_login_def redirect_env_def sample_env_def sample_page_def lit_def)
  have i: "text_input_cookie redirect_env = lit ''AQEDAR'' \<and> text_input_url redirect_env = lit ''https://www.linkedin.com/in/someone/recent-activity/all/''"
    by (simp add: redirect_env_def sample_env_def)
  from login_redirect_is_auth_failure [OF r l, of world0] r l i show ?thesis
    by blast
qed

text \<open>
  C3: once the automation engine has started, every run of \<open>get_authenticated_html\<close>
  ends by leaving the engine's scope, which stops the engine and with it the browser
  session: on success, on an authentication failure, and when launching, installing the
  cookie, navigating, waiting or capturing the page raises (an exception while probing a
  selector is absorbed and the run goes on). The stop is the last call and happens once.
  \<^verbatim>\<open>browser.close()\<close> is called in addition, just before, exactly on the runs that return.
\<close>

theorem teardown_on_every_exit:
  assumes "playwright_start env = None"
  shows "\<exists>evs. trace (snd (get_authenticated_html env c u w))
             = trace w @ PlaywrightStart # evs @ [PlaywrightStop]
           \<and> list_all in_session evs
           \<and> ((\<exists>v. fst (get_authenticated_html env c u w) = Inr v)
                \<longleftrightarrow> (evs \<noteq> [] \<and> last evs = BrowserClose))"
proof -
  from session_frame [of "log PlaywrightStart w" env c u] obtain evs where
    "trace (snd (session env c u (log PlaywrightStart w))) = trace w @ PlaywrightStart # evs"
    "list_all in_session evs" "evs \<noteq> []"
    "(\<exists>v. fst (session env c u (log PlaywrightStart w)) = Inr v) \<longleftrightarrow> last evs = BrowserClose"
    by (auto simp: session_run_def)
  with assms show ?thesis
    by (simp add: get_authenticated_html_def step_def split_beta)
qed

theorem teardown_on_every_exit_witness:
  "playwright_start timeout_env = None
   \<and> fst (get_authenticated_html timeout_env (lit ''AQEDAR'') (lit ''https://www.linkedin.com/in/someone/'') world0) = Inl PlaywrightTimeout
   \<and> (\<exists>evs. trace (snd (get_authenticated_html timeout_env (lit ''AQEDAR'') (lit ''https://www.linkedin.com/in/someone/'') world0))
             = trace world0 @ PlaywrightStart # evs @ [PlaywrightStop]
           \<and> list_all in_session evs
           \<and> ((\<exists>v. fst (get_authenticated_html timeout_env (lit ''AQEDAR'') (lit ''https://www.linkedin.com/in/someone/'') world0) = Inr v)
                \<longleftrightarrow> (evs \<noteq> [] \<and> last evs = BrowserClose)))"
proof -
  have h: "playwright_start timeout_env = None"
    by (simp add: timeout_env_def sample_env_def)
  have r: "fst (get_authenticated_html timeout_env (lit ''AQEDAR'') (lit ''https://www.linkedin.com/in/someone/'') world0) = Inl PlaywrightTimeout"
    by (simp add: get_authenticated_html_def session_def step_def timeout_env_def sample_env_def
        sample_page_def)
  from teardown_on_every_exit [OF h, of "lit ''AQEDAR''" "lit ''https://www.linkedin.com/in/someone/''" world0] h r
  show ?thesis by blast
qed




text \<open>
  C5: on a page where no candidate selector gives a present element (each is absent or
  its query raises), \<open>get_authenticated_html\<close> warns, captures the page and returns the
  full page markup as a value.
\<close>

theorem no_selector_full_page:
  assumes "reaches_page env c u" and "\<not> redirected_to_login (navigate env c u)"
    and "\<forall>sel\<in>set selectors_to_try. \<forall>el. query_selector (navigate env c u) sel \<noteq> Inr (Some el)"
    and "page_content (navigate env c u) = Inr full"
  shows "fst (get_authenticated_html env c u w) = Inr (Some full)
     \<and> events_since w (snd (get_authenticated_html env c u w)) =
         [PlaywrightStart, Launch, NewContext, AddCookies c, NewPage, Ui (StStatus msg_loading),
          Goto u, Sleep 5] @ map QuerySelector selectors_to_try @
         [Ui (StWarning msg_no_container), Content, BrowserClose, PlaywrightStop]"
proof -
  have probed: "probe (navigate env c u) selectors_to_try v
      = (None, v\<lparr>trace := trace v @ map QuerySelector selectors_to_try\<rparr>)" for v
    using assms(3) by (rule probe_none)
  have "get_authenticated_html env c u w =
     (Inr (Some full), w\<lparr>trace := trace w @ [PlaywrightStart, Launch, NewContext, AddCookies c, NewPage,
        Ui (StStatus msg_loading), Goto u, Sleep 5] @ map QuerySelector selectors_to_try @
        [Ui (StWarning msg_no_container), Content, BrowserClose, PlaywrightStop]\<rparr>)"
    using assms(1,2,4)
    by (simp add: get_authenticated_html_def session_def step_def reaches_page_def
        redirected_to_login_def probed log_def)
  then show ?thesis by simp
qed

theorem no_selector_full_page_witness:
  "reaches_page sample_env (lit ''AQEDAR'') (lit ''https://www.linkedin.com/in/someone/'')
   \<and> \<not> redirected_to_login (navigate sample_env (lit ''AQEDAR'') (lit ''https://www.linkedin.com/in/someone/''))
   \<and> list_all (\<lambda>sel. query_selector (navigate sample_env (lit ''AQEDAR'')
          (lit ''https://www.linkedin.com/in/someone/'')) sel = Inr None) selectors_to_try
   \<and> fst (get_authenticated_html sample_env (lit ''AQEDAR'') (lit ''https://www.linkedin.com/in/someone/'') world0)
       = Inr (Some (lit ''<html><body><main>feed</main></body></html>''))"
proof -
  have r: "reaches_page sample_env (lit ''AQEDAR'') (lit ''https://www.linkedin.com/in/someone/'')"
    by (simp add: reaches_page_def sample_env_def sample_page_def)
  have l: "\<not> redirected_to_login (navigate sample_env (lit ''AQEDAR'') (lit ''https://www.linkedin.com/in/someone/''))"
    by (simp add: redirected_to_login_def sample_env_def sample_page_def lit_def)
  have n: "\<forall>sel\<in>set selectors_to_try. \<forall>el.
         query_selector (navigate sample_env (lit ''AQEDAR'') (lit ''https://www.linkedin.com/in/someone/'')) sel \<noteq> Inr (Some el)"
    by (simp add: sample_env_def sample_page_def)
  have p: "page_content (navigate sample_env (lit ''AQEDAR'') (lit ''https://www.linkedin.com/in/someone/''))
      = Inr (lit ''<html><body><main>feed</main></body></html>'')"
    by (simp add: sample_env_def sample_page_def)
  have a: "list_all (\<lambda>sel. query_selector (navigate sample_env (lit ''AQEDAR'')
          (lit ''https://www.linkedin.com/in/someone/'')) sel = Inr None) selectors_to_try"
    by (simp add: sample_env_def sample_page_def list_all_iff)
  from no_selector_full_page [OF r l n p, of world0] r l a show ?thesis
    by blast
qed

section \<open>Properties of extract_with_crawl4ai\<close>

lemma sample_loads_values:
  "sample_loads (lit ''[]'') = Inr (JArr [])"
  "sample_loads (lit ''NaN'') = Inr JNaN"
  "sample_loads (replicate 1000 0x5B) = Inl RecursionError"
  "sample_loads (lit ''not json'') = Inl JSONDecodeError"
proof -
  have far: "replicate 1000 (0x5B::nat) \<noteq> s" "s \<noteq> replicate 1000 0x5B" if "length s < 1000" for s
    using that by auto
  show "sample_loads (lit ''[]'') = Inr (JArr [])"
    by (simp add: sample_loads_def)
  show "sample_loads (lit ''NaN'') = Inr JNaN"
    by (simp add: sample_loads_def lit_def)
  show "sample_loads (replicate 1000 0x5B) = Inl RecursionError"
    by (simp add: sample_loads_def lit_def far)
  show "sample_loads (lit ''not json'') = Inl JSONDecodeError"
    by (simp add: sample_loads_def lit_def far)
qed

lemma utf8_document [simp]: "utf8_encodable (document h) = utf8_encodable h"
  by (simp add: utf8_encodable_def document_def lit_def)

lemma first_result_frame:
  "fs (snd (first_result env results w)) = fs w \<and>
   (\<exists>evs. trace (snd (first_result env results w)) = trace w @ evs)"
  by (cases results) (auto split: option.splits sum.splits)

lemma crawl_frame:
  "fs (snd (crawl env path w)) = fs w \<and> (\<exists>evs. trace (snd (crawl env path w)) = trace w @ evs)"
proof (cases "secrets env (lit ''GROQ_API_KEY'')")
  case (Inl e)
  then show ?thesis by (simp add: crawl_def)
next
  case token: (Inr token)
  show ?thesis
  proof (cases "crawler_start env")
    case (Some e)
    with token show ?thesis
      by (simp add: crawl_def step_def)
  next
    case None
    show ?thesis
    proof (cases "arun env (lit ''file://'' @ path) token")
      case (Inl e)
      with None token show ?thesis
        by (simp add: crawl_def step_def)
    next
      case (Inr results)
      from first_result_frame [of env results
          "log (Arun (lit ''file://'' @ path)) (log CrawlerStart (log (Ui (StStatus msg_running)) w))"]
      obtain evs where
        "fs (snd (first_result env results
          (log (Arun (lit ''file://'' @ path)) (log CrawlerStart (log (Ui (StStatus msg_running)) w))))) = fs w"
        "trace (snd (first_result env results
          (log (Arun (lit ''file://'' @ path)) (log CrawlerStart (log (Ui (StStatus msg_running)) w)))))
          = trace w @ [Ui (StStatus msg_running), CrawlerStart, Arun (lit ''file://'' @ path)] @ evs"
        by auto
      with Inr None token show ?thesis
        by (simp add: crawl_def step_def split_beta Let_def)
    qed
  qed
qed

lemma backend_answers_elim:
  assumes "backend_answers env html path results"
  obtains token where "named_temporary_file env = Inr path" and "utf8_encodable html"
    and "crawler_start env = None" and "secrets env (lit ''GROQ_API_KEY'') = Inr token"
    and "arun env (lit ''file://'' @ path) token = Inr results"
  using assms by (auto simp: backend_answers_def file_url_of_def split: sum.splits)

lemma crawl_answered:
  assumes "backend_answers env html path results"
  shows "crawl env path w =
    (fst (first_result env results (w\<lparr>trace := trace w @
        [Ui (StStatus msg_running), CrawlerStart, Arun (file_url_of path)]\<rparr>)),
     log CrawlerStop (snd (first_result env results (w\<lparr>trace := trace w @
        [Ui (StStatus msg_running), CrawlerStart, Arun (file_url_of path)]\<rparr>))))"
proof -
  from assms obtain token where "crawler_start env = None"
    and "secrets env (lit ''GROQ_API_KEY'') = Inr token"
    and "arun env (lit ''file://'' @ path) token = Inr results"
    by (rule backend_answers_elim)
  then show ?thesis
    by (simp add: crawl_def step_def Let_def split_beta log_def file_url_of_def)
qed

text \<open>
  The \<^verbatim>\<open>finally\<close> block never raises. It removes a file that is there unless the system
  refuses; a refusal is swallowed and leaves the file.
\<close>

lemma cleanup_present:
  "fs w path = Some d \<Longrightarrow>
   cleanup env path w =
     (Inr (), w\<lparr>fs := (if unlink_denied env then fs w else (fs w)(path := None)),
               trace := trace w @ [Unlink path]\<rparr>)"
  by (simp add: cleanup_def os_unlink_def log_def)

lemma cleanup_absent:
  "fs w path = None \<Longrightarrow> cleanup env path w = (Inr (), w\<lparr>trace := trace w @ [Unlink path]\<rparr>)"
  by (simp add: cleanup_def os_unlink_def log_def)

lemma cleanup_never_raises: "fst (cleanup env path w) = Inr ()"
  by (cases "fs w path") (simp_all add: cleanup_present cleanup_absent)

lemma cleanup_removes: "\<not> unlink_denied env \<Longrightarrow> fs (snd (cleanup env path w)) path = None"
  by (cases "fs w path") (simp_all add: cleanup_present cleanup_absent)

lemma cleanup_refused: "unlink_denied env \<Longrightarrow> fs (snd (cleanup env path w)) = fs w"
  by (cases "fs w path") (simp_all add: cleanup_present cleanup_absent)

lemma extract_written:
  assumes "named_temporary_file env = Inr path" and "utf8_encodable html"
  shows "extract_with_crawl4ai env html w =
    (let w1 = w\<lparr>fs := (fs w)(path \<mapsto> document html),
                trace := trace w @ [NamedTemporaryFile, Write path (document html)]\<rparr>;
         out = crawl env path w1 in
     (fst out, (snd out)\<lparr>fs := (if unlink_denied env then (fs w)(path \<mapsto> document html)
                                  else (fs w)(path := None)),
                          trace := trace (snd out) @ [Unlink path]\<rparr>))"
proof -
  define w1 where "w1 = w\<lparr>fs := (fs w)(path \<mapsto> document html),
                trace := trace w @ [NamedTemporaryFile, Write path (document html)]\<rparr>"
  have written: "(log (Write path (document html))
          ((log NamedTemporaryFile w)\<lparr>fs := (fs w)(path \<mapsto> [])\<rparr>))
        \<lparr>fs := (fs w)(path \<mapsto> document html)\<rparr> = w1"
    by (simp add: w1_def log_def)
  have f: "fs (snd (crawl env path w1)) = (fs w)(path \<mapsto> document html)"
    using crawl_frame [of env path w1] by (simp add: w1_def)
  then have "fs (snd (crawl env path w1)) path = Some (document html)"
    by simp
  from cleanup_present [OF this, of env] have
    c: "cleanup env path (snd (crawl env path w1)) =
      (Inr (), (snd (crawl env path w1))\<lparr>fs := (if unlink_denied env then (fs w)(path \<mapsto> document html)
                                  else (fs w)(path := None)),
          trace := trace (snd (crawl env path w1)) @ [Unlink path]\<rparr>)"
    using f by simp
  have "extract_with_crawl4ai env html w =
      (case crawl env path w1 of (r, w') \<Rightarrow>
         (case cleanup env path w' of (Inl e, w'') \<Rightarrow> (Inl e, w'') | (Inr u, w'') \<Rightarrow> (r, w'')))"
    using assms by (simp add: extract_with_crawl4ai_def Let_def written)
  also have "\<dots> = (fst (crawl env path w1), (snd (crawl env path w1))\<lparr>fs := (if unlink_denied env then (fs w)(path \<mapsto> document html)
                                  else (fs w)(path := None)),
          trace := trace (snd (crawl env path w1)) @ [Unlink path]\<rparr>)"
    by (simp add: split_beta c)
  finally show ?thesis
    by (simp add: Let_def w1_def)
qed

lemma extract_backend_failure:
  assumes "backend_answers env html path (r # rs)" and "\<not> success r"
  shows "extract_with_crawl4ai env html w =
    (Inr (JArr []), w\<lparr>fs := (if unlink_denied env then (fs w)(path \<mapsto> document html)
                              else (fs w)(path := None)),
       trace := trace w @ [NamedTemporaryFile, Write path (document html), Ui (StStatus msg_running),
         CrawlerStart, Arun (file_url_of path), Ui (StError msg_extraction_failed), CrawlerStop,
         Unlink path]\<rparr>)"
proof -
  from assms(1) have t: "named_temporary_file env = Inr path" and u: "utf8_encodable html"
    by (simp_all add: backend_answers_def)
  from assms(2-) show ?thesis
    by (simp add: extract_written [OF t u] crawl_answered [OF assms(1)] log_def Let_def)
qed

lemma extract_parse_failure:
  assumes "backend_answers env html path (r # rs)" and "success r"
    and "extracted_content r = Some content" and "loads env content = Inl JSONDecodeError"
  shows "extract_with_crawl4ai env html w =
    (Inr (JArr []), w\<lparr>fs := (if unlink_denied env then (fs w)(path \<mapsto> document html)
                              else (fs w)(path := None)),
       trace := trace w @ [NamedTemporaryFile, Write path (document html), Ui (StStatus msg_running),
         CrawlerStart, Arun (file_url_of path), Ui (StError msg_parse_failed),
         Ui (StJson (JObj [(lit ''raw_content'', JStr content)])), CrawlerStop, Unlink path]\<rparr>)"
proof -
  from assms(1) have t: "named_temporary_file env = Inr path" and u: "utf8_encodable html"
    by (simp_all add: backend_answers_def)
  from assms(2-) show ?thesis
    by (simp add: extract_written [OF t u] crawl_answered [OF assms(1)] log_def Let_def)
qed

lemma extract_loads_raises:
  assumes "backend_answers env html path (r # rs)" and "success r"
    and "extracted_content r = Some content" and "loads env content = Inl e"
    and "\<not> is_JSONDecodeError e"
  shows "fst (extract_with_crawl4ai env html w) = Inl e"
proof -
  from assms(1) have t: "named_temporary_file env = Inr path" and u: "utf8_encodable html"
    by (simp_all add: backend_answers_def)
  from assms(2-) show ?thesis
    by (simp add: extract_written [OF t u] crawl_answered [OF assms(1)] Let_def)
qed


text \<open>
  Once the file is written, it is gone after the call on every path unless \<^verbatim>\<open>os.unlink\<close>
  is refused, in which case it remains and nothing is raised for it.
\<close>

lemma extract_file_after:
  assumes t: "named_temporary_file env = Inr path" and u: "utf8_encodable html"
  shows "fs (snd (extract_with_crawl4ai env html w)) path
     = (if unlink_denied env then Some (document html) else None)"
  by (simp add: extract_written [OF t u] Let_def)

lemma extract_starts:
  "\<exists>evs. trace (snd (extract_with_crawl4ai env html w)) = trace w @ NamedTemporaryFile # evs"
proof (cases "named_temporary_file env")
  case (Inl e)
  then show ?thesis by (simp add: extract_with_crawl4ai_def)
next
  case (Inr path)
  show ?thesis
  proof (cases "utf8_encodable html")
    case False
    with Inr show ?thesis by (simp add: extract_with_crawl4ai_def Let_def)
  next
    case True
    from crawl_frame [of env path "w\<lparr>fs := (fs w)(path \<mapsto> document html),
        trace := trace w @ [NamedTemporaryFile, Write path (document html)]\<rparr>"]
    obtain evs where "trace (snd (crawl env path (w\<lparr>fs := (fs w)(path \<mapsto> document html),
        trace := trace w @ [NamedTemporaryFile, Write path (document html)]\<rparr>)))
        = trace w @ [NamedTemporaryFile, Write path (document html)] @ evs"
      by auto
    then show ?thesis
      by (simp add: extract_written [OF Inr True] Let_def)
  qed
qed




text \<open>
  C6, at a fragment that holds the lone surrogate \<open>U+D800\<close>: the temporary file is created,
  writing to it raises \<^verbatim>\<open>UnicodeEncodeError\<close> before the \<^verbatim>\<open>try\<close> is entered, no
  \<^verbatim>\<open>os.unlink\<close> is attempted, and the file, which did not exist before the call, is
  still there when the exception reaches the caller.
\<close>

theorem unencodable_fragment_leaves_file:
  "fs world0 (lit ''/tmp/tmpk3x9a1.html'') = None
   \<and> fst (extract_with_crawl4ai sample_env [0xD800] world0) = Inl UnicodeEncodeError
   \<and> fs (snd (extract_with_crawl4ai sample_env [0xD800] world0)) (lit ''/tmp/tmpk3x9a1.html'') = Some []
   \<and> Unlink (lit ''/tmp/tmpk3x9a1.html'') \<notin> set (trace (snd (extract_with_crawl4ai sample_env [0xD800] world0)))"
proof -
  have "\<not> utf8_encodable [0xD800]"
    by (simp add: utf8_encodable_def)
  then show ?thesis
    by (simp add: extract_with_crawl4ai_def sample_env_def world0_def Let_def)
qed

text \<open>
  C7, as amended: when the backend answers and its first result reports success with a
  content string on which \<^verbatim>\<open>json.loads\<close> raises \<^verbatim>\<open>JSONDecodeError\<close>,
  \<open>extract_with_crawl4ai\<close> returns the empty list (no exception) and shows the raw content
  under the key \<^verbatim>\<open>raw_content\<close>.
\<close>

theorem unparsable_content_gives_empty:
  assumes "backend_answers env html path (r # rs)" and "success r"
    and "extracted_content r = Some content" and "loads env content = Inl JSONDecodeError"
  shows "fst (extract_with_crawl4ai env html w) = Inr (JArr [])
     \<and> events_since w (snd (extract_with_crawl4ai env html w)) =
         [NamedTemporaryFile, Write path (document html), Ui (StStatus msg_running), CrawlerStart,
          Arun (file_url_of path), Ui (StError msg_parse_failed),
          Ui (StJson (JObj [(lit ''raw_content'', JStr content)])), CrawlerStop, Unlink path]
     \<and> Ui (StJson (JObj [(lit ''raw_content'', JStr content)]))
          \<in> set (events_since w (snd (extract_with_crawl4ai env html w)))"
proof -
  have "extract_with_crawl4ai env html w =
    (Inr (JArr []), w\<lparr>fs := (if unlink_denied env then (fs w)(path \<mapsto> document html)
                              else (fs w)(path := None)),
       trace := trace w @ [NamedTemporaryFile, Write path (document html), Ui (StStatus msg_running),
         CrawlerStart, Arun (file_url_of path), Ui (StError msg_parse_failed),
         Ui (StJson (JObj [(lit ''raw_content'', JStr content)])), CrawlerStop, Unlink path]\<rparr>)"
    using assms by (rule extract_parse_failure)
  then show ?thesis by simp
qed

theorem unparsable_content_gives_empty_witness:
  "backend_answers garbled_env (lit ''<li>post</li>'') (lit ''/tmp/tmpk3x9a1.html'')
      [\<lparr>success = True, extracted_content = Some (lit ''not json'')\<rparr>]
   \<and> loads garbled_env (lit ''not json'') = Inl JSONDecodeError
   \<and> fst (extract_with_crawl4ai garbled_env (lit ''<li>post</li>'') world0) = Inr (JArr [])
   \<and> Ui (StJson (JObj [(lit ''raw_content'', JStr (lit ''not json''))]))
        \<in> set (events_since world0 (snd (extract_with_crawl4ai garbled_env (lit ''<li>post</li>'') world0)))"
proof -
  have u: "utf8_encodable (lit ''<li>post</li>'')"
    by (simp add: utf8_encodable_def lit_def)
  have b: "backend_answers garbled_env (lit ''<li>post</li>'') (lit ''/tmp/tmpk3x9a1.html'')
      [\<lparr>success = True, extracted_content = Some (lit ''not json'')\<rparr>]"
    by (simp add: backend_answers_def garbled_env_def sample_env_def u)
  have s: "success \<lparr>success = True, extracted_content = Some (lit ''not json'')\<rparr>"
    by simp
  have c: "extracted_content \<lparr>success = True, extracted_content = Some (lit ''not json'')\<rparr>
      = Some (lit ''not json'')"
    by simp
  have l: "loads garbled_env (lit ''not json'') = Inl JSONDecodeError"
    by (simp add: garbled_env_def sample_env_def sample_loads_values)
  from unparsable_content_gives_empty [OF b s c l, of world0] b l show ?thesis
    by blast
qed

text \<open>
  The claim as first stated covers every content that is not valid JSON, and fails on two
  kinds of it. The literal \<^verbatim>\<open>NaN\<close> is not JSON, yet \<^verbatim>\<open>json.loads\<close> accepts it: the float is
  returned as the extracted data and nothing is shown as raw content. A thousand opening
  brackets make \<^verbatim>\<open>json.loads\<close> raise \<^verbatim>\<open>RecursionError\<close>, which
  \<^verbatim>\<open>except json.JSONDecodeError\<close> does not catch: the exception leaves the function.
\<close>

theorem unparsable_content_counterexample:
  "backend_answers nan_env (lit ''<li>post</li>'') (lit ''/tmp/tmpk3x9a1.html'')
      [\<lparr>success = True, extracted_content = Some (lit ''NaN'')\<rparr>]
   \<and> loads nan_env (lit ''NaN'') = Inr JNaN
   \<and> fst (extract_with_crawl4ai nan_env (lit ''<li>post</li>'') world0) = Inr JNaN
   \<and> fst (extract_with_crawl4ai nan_env (lit ''<li>post</li>'') world0) \<noteq> Inr (JArr [])
   \<and> Ui (StJson (JObj [(lit ''raw_content'', JStr (lit ''NaN''))]))
        \<notin> set (trace (snd (extract_with_crawl4ai nan_env (lit ''<li>post</li>'') world0)))
   \<and> backend_answers deep_env (lit ''<li>post</li>'') (lit ''/tmp/tmpk3x9a1.html'')
      [\<lparr>success = True, extracted_content = Some (replicate 1000 0x5B)\<rparr>]
   \<and> loads deep_env (replicate 1000 0x5B) = Inl RecursionError
   \<and> fst (extract_with_crawl4ai deep_env (lit ''<li>post</li>'') world0) = Inl RecursionError"
proof -
  have u: "utf8_encodable (lit ''<li>post</li>'')"
    by (simp add: utf8_encodable_def lit_def)
  have t: "named_temporary_file nan_env = Inr (lit ''/tmp/tmpk3x9a1.html'')"
    "named_temporary_file deep_env = Inr (lit ''/tmp/tmpk3x9a1.html'')"
    by (simp_all add: nan_env_def deep_env_def sample_env_def)
  have n: "backend_answers nan_env (lit ''<li>post</li>'') (lit ''/tmp/tmpk3x9a1.html'')
      [\<lparr>success = True, extracted_content = Some (lit ''NaN'')\<rparr>]"
    "loads nan_env (lit ''NaN'') = Inr JNaN"
    by (simp_all add: backend_answers_def nan_env_def sample_env_def u sample_loads_values)
  have d: "backend_answers deep_env (lit ''<li>post</li>'') (lit ''/tmp/tmpk3x9a1.html'')
      [\<lparr>success = True, extracted_content = Some (replicate 1000 0x5B)\<rparr>]"
    "loads deep_env (replicate 1000 0x5B) = Inl RecursionError"
    by (simp_all add: backend_answers_def deep_env_def sample_env_def u sample_loads_values)
  have ud: "\<not> unlink_denied nan_env"
    by (simp add: nan_env_def sample_env_def)
  have "extract_with_crawl4ai nan_env (lit ''<li>post</li>'') world0 =
      (Inr JNaN, world0\<lparr>fs := (fs world0)(lit ''/tmp/tmpk3x9a1.html'' := None),
         trace := [NamedTemporaryFile, Write (lit ''/tmp/tmpk3x9a1.html'') (document (lit ''<li>post</li>'')),
           Ui (StStatus msg_running), CrawlerStart, Arun (file_url_of (lit ''/tmp/tmpk3x9a1.html'')),
           Ui (StSuccess msg_extracted), CrawlerStop, Unlink (lit ''/tmp/tmpk3x9a1.html'')]\<rparr>)"
    using n(2) ud
    by (simp add: extract_written [OF t(1) u] crawl_answered [OF n(1)] log_def Let_def world0_def)
  moreover have "fst (extract_with_crawl4ai deep_env (lit ''<li>post</li>'') world0) = Inl RecursionError"
    by (rule extract_loads_raises [OF d(1) _ _ d(2)]) simp_all
  ultimately show ?thesis using n d by simp
qed

text \<open>
  C8: when the backend answers and its first result reports failure,
  \<open>extract_with_crawl4ai\<close> reports it and returns the empty list.
\<close>

theorem backend_failure_gives_empty:
  assumes "backend_answers env html path (r # rs)" and "\<not> success r"
  shows "fst (extract_with_crawl4ai env html w) = Inr (JArr [])
     \<and> events_since w (snd (extract_with_crawl4ai env html w)) =
         [NamedTemporaryFile, Write path (document html), Ui (StStatus msg_running), CrawlerStart,
          Arun (file_url_of path), Ui (StError msg_extraction_failed), CrawlerStop, Unlink path]"
proof -
  have "extract_with_crawl4ai env html w =
    (Inr (JArr []), w\<lparr>fs := (if unlink_denied env then (fs w)(path \<mapsto> document html)
                              else (fs w)(path := None)),
       trace := trace w @ [NamedTemporaryFile, Write path (document html), Ui (StStatus msg_running),
         CrawlerStart, Arun (file_url_of path), Ui (StError msg_extraction_failed), CrawlerStop,
         Unlink path]\<rparr>)"
    using assms by (rule extract_backend_failure)
  then show ?thesis by simp
qed

theorem backend_failure_gives_empty_witness:
  "backend_answers failed_env (lit ''<li>post</li>'') (lit ''/tmp/tmpk3x9a1.html'')
      [\<lparr>success = False, extracted_content = None\<rparr>]
   \<and> fst (extract_with_crawl4ai failed_env (lit ''<li>post</li>'') world0) = Inr (JArr [])"
proof -
  have b: "backend_answers failed_env (lit ''<li>post</li>'') (lit ''/tmp/tmpk3x9a1.html'')
      [\<lparr>success = False, extracted_content = None\<rparr>]"
    by (simp add: backend_answers_def failed_env_def sample_env_def utf8_encodable_def lit_def)
  have s: "\<not> success \<lparr>success = False, extracted_content = None\<rparr>"
    by simp
  from backend_failure_gives_empty [OF b s, of world0] b show ?thesis
    by blast
qed

text \<open>
  C9: only the first result is consulted, and of it only the success flag and the
  extracted content: two answers of the backend whose first results agree on these two
  give the same return value and the same final world, whatever else the first results
  carry and whatever results follow them.
\<close>

theorem only_first_result_consulted:
  assumes "success r = success r'" and "extracted_content r = extracted_content r'"
  shows "first_result env (r # rs) w = first_result env (r' # rs') w
     \<and> extract_with_crawl4ai (env\<lparr>arun := (\<lambda>address token. Inr (r # rs))\<rparr>) html w
         = extract_with_crawl4ai (env\<lparr>arun := (\<lambda>address token. Inr (r' # rs'))\<rparr>) html w"
proof -
  have one: "first_result env (r # rs) v = first_result env (r' # rs') v" for v and env :: "'a env"
    using assms by simp
  have "crawl (env\<lparr>arun := (\<lambda>address token. Inr (r # rs))\<rparr>) path v
      = crawl (env\<lparr>arun := (\<lambda>address token. Inr (r' # rs'))\<rparr>) path v" for path v
    using assms by (simp add: crawl_def step_def Let_def split: sum.splits option.splits)
  moreover have "cleanup (env\<lparr>arun := f\<rparr>) path v = cleanup env path v" for f path v
    by (simp add: cleanup_def os_unlink_def Let_def)
  ultimately have "extract_with_crawl4ai (env\<lparr>arun := (\<lambda>address token. Inr (r # rs))\<rparr>) html w
         = extract_with_crawl4ai (env\<lparr>arun := (\<lambda>address token. Inr (r' # rs'))\<rparr>) html w"
    by (simp add: extract_with_crawl4ai_def Let_def split: sum.splits)
  with one show ?thesis by simp
qed

theorem only_first_result_consulted_witness:
  "extract_with_crawl4ai two_results_env (lit ''<li>post</li>'') world0
     = extract_with_crawl4ai
         (sample_env\<lparr>arun := (\<lambda>address token. Inr [\<lparr>success = True, extracted_content = Some (lit ''[]'')\<rparr>])\<rparr>)
         (lit ''<li>post</li>'') world0
   \<and> fst (extract_with_crawl4ai two_results_env (lit ''<li>post</li>'') world0) = Inr (JArr [])"
proof -
  have e: "two_results_env = sample_env\<lparr>arun := (\<lambda>address token.
     Inr (\<lparr>success = True, extracted_content = Some (lit ''[]'')\<rparr> #
          [\<lparr>success = False, extracted_content = None\<rparr>]))\<rparr>"
    by (simp add: two_results_env_def)
  have r: "fst (extract_with_crawl4ai two_results_env (lit ''<li>post</li>'') world0) = Inr (JArr [])"
    by (simp add: extract_with_crawl4ai_def crawl_def step_def two_results_env_def sample_env_def
        sample_loads_def world0_def Let_def utf8_encodable_def document_def lit_def cleanup_def
        os_unlink_def log_def)
  from only_first_result_consulted [of "\<lparr>success = True, extracted_content = Some (lit ''[]'')\<rparr>"
      "\<lparr>success = True, extracted_content = Some (lit ''[]'')\<rparr>" sample_env
      "[\<lparr>success = False, extracted_content = None\<rparr>]" world0 "[]" "lit ''<li>post</li>''"]
    e r show ?thesis
    by simp
qed

section \<open>Properties of main_app\<close>

lemma step_result_independent:
  assumes "\<And>w w'. fst (k w) = fst (k w')"
  shows "fst (step ev res w k) = fst (step ev res w' k)"
  using assms [of "log ev w" "log ev w'"] by (simp add: step_def split: option.splits)

lemma session_result_independent: "fst (session env c u w) = fst (session env c u w')"
proof -
  have tail: "fst (if contains (lit ''login'') (page_url pg) \<or> contains (lit ''checkpoint'') (page_url pg)
        then (Inr None, log BrowserClose (log (Ui (StError msg_redirect)) v))
        else
         (case probe pg selectors_to_try v of (feed_html, w) \<Rightarrow>
          if \<not> str_truthy feed_html
          then
            (case page_content pg of
               Inl e \<Rightarrow> (Inl e, log Content (log (Ui (StWarning msg_no_container)) w))
             | Inr full \<Rightarrow> (Inr (Some full),
                 log BrowserClose (log Content (log (Ui (StWarning msg_no_container)) w))))
          else (Inr feed_html, log BrowserClose w)))
      = fst (if contains (lit ''login'') (page_url pg) \<or> contains (lit ''checkpoint'') (page_url pg)
        then (Inr None, log BrowserClose (log (Ui (StError msg_redirect)) v'))
        else
         (case probe pg selectors_to_try v' of (feed_html, w) \<Rightarrow>
          if \<not> str_truthy feed_html
          then
            (case page_content pg of
               Inl e \<Rightarrow> (Inl e, log Content (log (Ui (StWarning msg_no_container)) w))
             | Inr full \<Rightarrow> (Inr (Some full),
                 log BrowserClose (log Content (log (Ui (StWarning msg_no_container)) w))))
          else (Inr feed_html, log BrowserClose w)))" for pg v v'
  proof -
    obtain a b where p: "probe pg selectors_to_try v = (a, b)"
      by (cases "probe pg selectors_to_try v")
    obtain a' b' where p': "probe pg selectors_to_try v' = (a', b')"
      by (cases "probe pg selectors_to_try v'")
    from probe_result_independent [of pg selectors_to_try v v'] p p' have "a = a'"
      by simp
    with p p' show ?thesis
      by (simp split: sum.splits)
  qed
  show ?thesis
    unfolding session_def Let_def
    apply (rule step_result_independent)+
    apply (rule tail)
    done
qed

lemma fetch_result_independent:
  "fst (get_authenticated_html env c u w) = fst (get_authenticated_html env c u w')"
  unfolding get_authenticated_html_def
  apply (rule step_result_independent)
  apply (simp only: split_beta fst_conv)
  apply (rule session_result_independent)
  done

lemma fetch_returns_stopped:
  "fst (get_authenticated_html env c u w) = Inr v \<Longrightarrow>
   last (trace (snd (get_authenticated_html env c u w))) = PlaywrightStop"
  by (simp add: get_authenticated_html_def step_def split_beta split: option.splits)

lemma write_fields_frame:
  "\<exists>evs. trace (snd (write_fields flds post w)) = trace w @ evs"
proof (induction flds arbitrary: w)
  case Nil
  show ?case by simp
next
  case (Cons f flds)
  obtain label key where f: "f = (label, key)" by (cases f)
  show ?case
  proof (cases "dict_get post key (JStr (lit ''N/A''))")
    case (Inl e)
    with f show ?thesis by simp
  next
    case (Inr v)
    from Cons.IH [of "log (Ui (StWrite label v)) w"] obtain evs where
      "trace (snd (write_fields flds post (log (Ui (StWrite label v)) w)))
        = trace w @ Ui (StWrite label v) # evs"
      by auto
    with f Inr show ?thesis by simp
  qed
qed

lemma show_posts_frame:
  "\<exists>evs. trace (snd (show_posts i posts w)) = trace w @ evs"
proof (induction posts arbitrary: i w)
  case Nil
  show ?case by simp
next
  case (Cons post posts)
  let ?w1 = "log (Ui (StColumns 2)) (log (Ui (StSubheader (i + 1))) w)"
  obtain r w2 where wf: "write_fields column_fields post ?w1 = (r, w2)"
    by (cases "write_fields column_fields post ?w1")
  with write_fields_frame [of column_fields post ?w1] obtain evs where
    w2: "trace w2 = trace w @ [Ui (StSubheader (i + 1)), Ui (StColumns 2)] @ evs"
    by auto
  show ?case
  proof (cases r)
    case (Inl e)
    with wf w2 show ?thesis by simp
  next
    case (Inr u)
    from Cons.IH [of "i + 1" w2] obtain evs' where
      "trace (snd (show_posts (i + 1) posts w2)) = trace w2 @ evs'"
      by auto
    with Inr wf w2 show ?thesis by simp
  qed
qed

lemma show_results_frame:
  "\<exists>evs. trace (snd (show_results extracted_data w)) = trace w @ evs"
proof (cases "py_iter extracted_data")
  case (Inl e)
  then show ?thesis by (simp add: show_results_def)
next
  case (Inr posts)
  let ?w1 = "log (Ui (StHeader (0x1F4CB # lit '' Formatted Output'')))
    (log (Ui (StJson extracted_data)) (log (Ui (StHeader (0x1F4CA # lit '' Final Results''))) w))"
  from show_posts_frame [of 0 posts ?w1] obtain evs where
    "trace (snd (show_posts 0 posts ?w1)) = trace ?w1 @ evs"
    by auto
  with Inr show ?thesis by (simp add: show_results_def)
qed

lemma pipeline_truthy:
  assumes "fst (get_authenticated_html env c u w) = Inr (Some h)" and "h \<noteq> []"
  shows "\<exists>evs. trace (snd (pipeline env c u w))
     = trace (snd (get_authenticated_html env c u w)) @ NamedTemporaryFile # evs"
proof -
  obtain wf where f: "get_authenticated_html env c u w = (Inr (Some h), wf)"
    using assms(1) by (cases "get_authenticated_html env c u w") simp
  obtain r we where e: "extract_with_crawl4ai env h wf = (r, we)"
    by (cases "extract_with_crawl4ai env h wf")
  with extract_starts [of env h wf] obtain evs where
    we: "trace we = trace wf @ NamedTemporaryFile # evs"
    by auto
  show ?thesis
  proof (cases r)
    case (Inl x)
    with f e we assms(2) show ?thesis by (simp add: pipeline_def)
  next
    case (Inr extracted_data)
    show ?thesis
    proof (cases "truthy extracted_data")
      case False
      with Inr f e we assms(2) show ?thesis by (simp add: pipeline_def)
    next
      case True
      from show_results_frame [of extracted_data
          "log (Ui (StStatusUpdate (lit ''Extraction Complete!'') (lit ''complete''))) we"]
      obtain evs' where "trace (snd (show_results extracted_data
          (log (Ui (StStatusUpdate (lit ''Extraction Complete!'') (lit ''complete''))) we)))
          = trace we @ Ui (StStatusUpdate (lit ''Extraction Complete!'') (lit ''complete'')) # evs'"
        by auto
      with True Inr f e we assms(2) show ?thesis by (simp add: pipeline_def)
    qed
  qed
qed

lemma pipeline_falsy:
  assumes "\<not> (\<exists>h. fst (get_authenticated_html env c u w) = Inr (Some h) \<and> h \<noteq> [])"
  shows "snd (pipeline env c u w) = snd (get_authenticated_html env c u w)"
    and "fst (pipeline env c u w) =
      (case fst (get_authenticated_html env c u w) of Inl e \<Rightarrow> Inl e | Inr v \<Rightarrow> Inr ())"
  using assms
  by (cases "get_authenticated_html env c u w";
      auto simp: pipeline_def split: sum.splits option.splits)+

lemma main_app_pressed:
  assumes "button env" and "text_input_cookie env \<noteq> []"
  shows "\<exists>w1. trace w1 = trace w @
        [Ui (StTitle (lit ''LinkedIn Post Extractor'')),
         Ui (StMarkdown (lit ''Enter your LinkedIn 'li_at' cookie and a profile URL to extract recent posts.'')),
         Ui (StTextInput (lit ''Enter your 'li_at' cookie:'')),
         Ui (StTextInput (lit ''Enter LinkedIn activity URL:'')),
         Ui (StButton (lit ''Start Extraction'')),
         Ui (StStatus (lit ''Initializing...''))]
      \<and> main_app env w =
        (case pipeline env (text_input_cookie env) (text_input_url env) w1 of
           (Inl e, w2) \<Rightarrow>
             log (Ui (StStatusUpdate (lit ''An error occurred'') (lit ''error'')))
               (log (Ui (StException e)) w2)
         | (Inr u, w2) \<Rightarrow> w2)"
  using assms
  by (intro exI [of _ "log (Ui (StStatus (lit ''Initializing...'')))
        (log (Ui (StButton (lit ''Start Extraction'')))
        (log (Ui (StTextInput (lit ''Enter LinkedIn activity URL:'')))
        (log (Ui (StTextInput (lit ''Enter your 'li_at' cookie:'')))
        (log (Ui (StMarkdown (lit ''Enter your LinkedIn 'li_at' cookie and a profile URL to extract recent posts.'')))
        (log (Ui (StTitle (lit ''LinkedIn Post Extractor''))) w)))))"])
     (simp add: main_app_def Let_def)

text \<open>
  C10: in a run where the button is pressed and a cookie is entered, \<open>main_app\<close> enters
  \<open>extract_with_crawl4ai\<close> (whose first call creates the temporary file) exactly when
  \<open>get_authenticated_html\<close> returns a non-empty string. When it returns \<^verbatim>\<open>None\<close> or the
  empty string the run ends there: stopping the engine is the last call of the whole run.
\<close>

theorem extract_runs_iff_fragment_truthy:
  assumes "button env" and "text_input_cookie env \<noteq> []"
  shows "(NamedTemporaryFile \<in> set (events_since w (main_app env w))
           \<longleftrightarrow> (\<exists>h. fst (get_authenticated_html env (text_input_cookie env) (text_input_url env) w')
                      = Inr (Some h) \<and> h \<noteq> []))
     \<and> (fst (get_authenticated_html env (text_input_cookie env) (text_input_url env) w') = Inr None
          \<or> fst (get_authenticated_html env (text_input_cookie env) (text_input_url env) w') = Inr (Some [])
        \<longrightarrow> last (trace (main_app env w)) = PlaywrightStop)"
proof -
  let ?c = "text_input_cookie env" and ?u = "text_input_url env"
  from main_app_pressed [OF assms, of w] obtain w1 pre where
    w1: "trace w1 = trace w @ pre" and pre: "NamedTemporaryFile \<notin> set pre"
    and m: "main_app env w =
        (case pipeline env ?c ?u w1 of
           (Inl e, w2) \<Rightarrow>
             log (Ui (StStatusUpdate (lit ''An error occurred'') (lit ''error'')))
               (log (Ui (StException e)) w2)
         | (Inr u, w2) \<Rightarrow> w2)"
    by fastforce
  have same: "fst (get_authenticated_html env ?c ?u w') = fst (get_authenticated_html env ?c ?u w1)"
    by (rule fetch_result_independent)
  from fetch_frame [of env ?c ?u w1] obtain evs where
    wf: "trace (snd (get_authenticated_html env ?c ?u w1)) = trace w1 @ PlaywrightStart # evs"
    and evs: "list_all (\<lambda>ev. in_session ev \<or> ev = PlaywrightStop) evs"
    by auto
  from evs have no_file: "NamedTemporaryFile \<notin> set evs"
    by (auto simp: list_all_iff)
  obtain r w2 where p: "pipeline env ?c ?u w1 = (r, w2)"
    by (cases "pipeline env ?c ?u w1")
  show ?thesis
  proof (cases "\<exists>h. fst (get_authenticated_html env ?c ?u w1) = Inr (Some h) \<and> h \<noteq> []")
    case True
    then obtain h where h: "fst (get_authenticated_html env ?c ?u w1) = Inr (Some h)" "h \<noteq> []"
      by blast
    from pipeline_truthy [OF h] p wf w1 obtain evs' where
      "trace w2 = trace w @ pre @ PlaywrightStart # evs @ NamedTemporaryFile # evs'"
      by auto
    then have "NamedTemporaryFile \<in> set (events_since w (main_app env w))"
      by (cases r) (simp_all add: m p events_since_def)
    with True h show ?thesis
      by (simp add: same)
  next
    case False
    from pipeline_falsy [OF False] p
    have w2: "w2 = snd (get_authenticated_html env ?c ?u w1)"
      and r: "r = (case fst (get_authenticated_html env ?c ?u w1) of Inl e \<Rightarrow> Inl e | Inr v \<Rightarrow> Inr ())"
      by simp_all
    from w2 wf w1 have t: "trace w2 = trace w @ pre @ PlaywrightStart # evs"
      by simp
    with pre no_file have absent: "NamedTemporaryFile \<notin> set (events_since w (main_app env w))"
      by (cases r) (simp_all add: m p events_since_def)
    have "last (trace (main_app env w)) = PlaywrightStop"
      if "fst (get_authenticated_html env ?c ?u w1) = Inr v" for v
      using that fetch_returns_stopped [OF that] w2 r by (simp add: m p)
    with absent False show ?thesis
      by (auto simp: same)
  qed
qed

theorem extract_runs_iff_fragment_truthy_witness:
  "button extract_env \<and> text_input_cookie extract_env \<noteq> []
   \<and> fst (get_authenticated_html extract_env (text_input_cookie extract_env)
        (text_input_url extract_env) world0) = Inr (Some (lit ''<li>post</li>''))
   \<and> NamedTemporaryFile \<in> set (events_since world0 (main_app extract_env world0))"
proof -
  have b: "button extract_env"
    by (simp add: extract_env_def feed_env_def sample_env_def)
  have c: "text_input_cookie extract_env \<noteq> []"
    by (simp add: extract_env_def feed_env_def sample_env_def lit_def)
  have f: "fst (get_authenticated_html extract_env (text_input_cookie extract_env)
        (text_input_url extract_env) world0) = Inr (Some (lit ''<li>post</li>''))"
    by (simp add: get_authenticated_html_def session_def step_def selectors_to_try_def
        extract_env_def feed_env_def sample_env_def sample_page_def lit_def)
  have n: "lit ''<li>post</li>'' \<noteq> []"
    by (simp add: lit_def)
  from extract_runs_iff_fragment_truthy [OF b c, of world0 world0] f n
  have "NamedTemporaryFile \<in> set (events_since world0 (main_app extract_env world0))"
    by simp
  with b c f show ?thesis by simp
qed

end
